theory Spec2Isabelle
  imports Main "HOL-Library.Word"
begin

section \<open>Proxy selection of package httpproxy\<close>

text \<open>
  The package decides, for one request URL, which forward proxy (if any) to use, from
  the three strings of a \<open>Config\<close>. Go strings are byte sequences: a \<open>string\<close> here is
  the list of the bytes, \<open>length\<close> is Go's \<open>len\<close>.

  The package calls the Go standard library and \<open>golang.org/x/net/idna\<close>. The byte-level
  helpers of \<open>strings\<close> and the address helpers \<open>net.SplitHostPort\<close>,
  \<open>net.JoinHostPort\<close> and \<open>IP.IsLoopback\<close> are written out below as the library
  documents them. URL parsing, IP-literal parsing, IDNA conversion and the Unicode tables
  behind \<open>strings.ToLower\<close> and \<open>strings.TrimSpace\<close> are parameters, collected in the
  record \<open>stdlib\<close>: every theorem holds for whatever these functions compute.
\<close>

subsection \<open>Run-time panics\<close>

text \<open>
  Indexing and slicing a Go string out of range panics. The panic is a value here, so
  that "does not panic" is a statement about the result.
\<close>

datatype panic = IndexOutOfRange | SliceBoundsOutOfRange

type_synonym 'a result = "panic + 'a"

definition index :: "string \<Rightarrow> int \<Rightarrow> char result" where
  \<comment> \<open>\<open>s[i]\<close>\<close>
  "index s i = (if 0 \<le> i \<and> i < int (length s) then Inr (s ! nat i) else Inl IndexOutOfRange)"

definition slice_to :: "string \<Rightarrow> int \<Rightarrow> string result" where
  \<comment> \<open>\<open>s[:j]\<close>\<close>
  "slice_to s j = (if 0 \<le> j \<and> j \<le> int (length s) then Inr (take (nat j) s)
                   else Inl SliceBoundsOutOfRange)"

definition slice_from :: "string \<Rightarrow> int \<Rightarrow> string result" where
  \<comment> \<open>\<open>s[i:]\<close>\<close>
  "slice_from s i = (if 0 \<le> i \<and> i \<le> int (length s) then Inr (drop (nat i) s)
                     else Inl SliceBoundsOutOfRange)"

subsection \<open>Package strings, on bytes\<close>

definition RuneSelf :: nat where
  \<comment> \<open>\<open>utf8.RuneSelf = 0x80\<close>: bytes below it are the ASCII characters\<close>
  "RuneSelf = 128"

fun isASCII :: "string \<Rightarrow> bool" where
  \<comment> \<open>proxy.go, lines 206-213\<close>
  "isASCII [] = True"
| "isASCII (c # s) = (if of_char c \<ge> RuneSelf then False else isASCII s)"

fun LastIndex_from :: "nat \<Rightarrow> int \<Rightarrow> string \<Rightarrow> char \<Rightarrow> int" where
  "LastIndex_from i found [] sep = found"
| "LastIndex_from i found (c # s) sep =
     LastIndex_from (Suc i) (if c = sep then int i else found) s sep"

definition LastIndex :: "string \<Rightarrow> char \<Rightarrow> int" where
  \<comment> \<open>\<open>strings.LastIndex(s, sep)\<close> for a separator of one byte (the package passes
      \<open>":"\<close> and \<open>"]"\<close>): the index of the last occurrence, or -1\<close>
  "LastIndex s sep = LastIndex_from 0 (- 1) s sep"

definition HasSuffix :: "string \<Rightarrow> string \<Rightarrow> bool" where
  \<comment> \<open>\<open>strings.HasSuffix(s, suffix)\<close>\<close>
  "HasSuffix s suffix =
     (length s \<ge> length suffix \<and> drop (length s - length suffix) s = suffix)"

fun Split :: "string \<Rightarrow> char \<Rightarrow> string list" where
  \<comment> \<open>\<open>strings.Split(s, sep)\<close> for a separator of one byte (the package passes
      \<open>","\<close>): the pieces between the separators; one empty piece for the empty string\<close>
  "Split [] sep = [[]]"
| "Split (c # s) sep =
     (if c = sep then [] # Split s sep
      else (case Split s sep of [] \<Rightarrow> [[c]] | w # ws \<Rightarrow> (c # w) # ws))"

definition toLowerByte :: "char \<Rightarrow> char" where
  "toLowerByte c =
     (if of_char (CHR ''A'') \<le> (of_char c :: nat) \<and> (of_char c :: nat) \<le> of_char (CHR ''Z'')
      then char_of ((of_char c :: nat) + 32) else c)"

definition asciiSpace :: "char \<Rightarrow> bool" where
  \<comment> \<open>tab, line feed, vertical tab, form feed, carriage return, space\<close>
  "asciiSpace c = ((of_char c :: nat) \<in> {9, 10, 11, 12, 13, 32})"

subsection \<open>The standard library\<close>

text \<open>
  \<open>url.URL\<close> is a struct of strings; \<open>url.Parse\<close> fills it or fails with an error, whose
  text is kept. \<open>net.IP\<close> is a byte slice, \<open>nil\<close> when \<open>net.ParseIP\<close> rejects the text.
\<close>

record URL =
  Scheme :: string
  Opaque :: string
  Host :: string
  Path :: string
  RawQuery :: string
  Fragment :: string

type_synonym IP = "8 word list"

record stdlib =
  Parse :: "string \<Rightarrow> string + URL"            \<comment> \<open>\<open>url.Parse\<close>; \<open>Inl\<close> is the error's text\<close>
  Hostname :: "URL \<Rightarrow> string"                  \<comment> \<open>\<open>(*url.URL).Hostname\<close>\<close>
  Port :: "URL \<Rightarrow> string"                      \<comment> \<open>\<open>(*url.URL).Port\<close>\<close>
  ToASCII :: "string \<Rightarrow> string + string"       \<comment> \<open>\<open>idna.Lookup.ToASCII\<close>\<close>
  ParseIP :: "string \<Rightarrow> IP option"             \<comment> \<open>\<open>net.ParseIP\<close>\<close>
  ToLower_unicode :: "string \<Rightarrow> string"        \<comment> \<open>\<open>strings.ToLower\<close> off ASCII\<close>
  TrimSpace_unicode :: "string \<Rightarrow> string"      \<comment> \<open>\<open>strings.TrimSpace\<close> off ASCII\<close>

definition ToLower :: "stdlib \<Rightarrow> string \<Rightarrow> string" where
  \<comment> \<open>\<open>strings.ToLower\<close>: byte by byte on an ASCII string, by the Unicode tables otherwise\<close>
  "ToLower sl s = (if isASCII s then map toLowerByte s else ToLower_unicode sl s)"

definition TrimSpace :: "stdlib \<Rightarrow> string \<Rightarrow> string" where
  \<comment> \<open>\<open>strings.TrimSpace\<close>: on an ASCII string the six ASCII spaces are cut at both ends\<close>
  "TrimSpace sl s =
     (if isASCII s then rev (dropWhile asciiSpace (rev (dropWhile asciiSpace s)))
      else TrimSpace_unicode sl s)"

datatype AddrError =
  MissingPort | TooManyColons | MissingBracket | UnexpectedOpenBracket | UnexpectedCloseBracket

definition IndexByte :: "string \<Rightarrow> char \<Rightarrow> int" where
  \<comment> \<open>the index of the first occurrence, or -1\<close>
  "IndexByte s c = (if c \<in> set s then int (length (takeWhile (\<lambda>x. x \<noteq> c) s)) else - 1)"

definition SplitHostPort :: "string \<Rightarrow> AddrError + (string \<times> string)" where
  \<comment> \<open>\<open>net.SplitHostPort\<close>: \<open>host:port\<close> or \<open>[host]:port\<close> into host and port\<close>
  "SplitHostPort hostport =
     (let i = LastIndex hostport (CHR '':'') in
      if i < 0 then Inl MissingPort
      else if take 1 hostport = ''[''
      then (let end = IndexByte hostport (CHR '']'') in
            if end < 0 then Inl MissingBracket
            else if end + 1 = int (length hostport) then Inl MissingPort
            else if end + 1 = i
            then (if 0 \<le> IndexByte (drop 1 hostport) (CHR ''['') then Inl UnexpectedOpenBracket
                  else if 0 \<le> IndexByte (drop (nat (end + 1)) hostport) (CHR '']'')
                  then Inl UnexpectedCloseBracket
                  else Inr (drop 1 (take (nat end) hostport), drop (nat (i + 1)) hostport))
            else if hostport ! nat (end + 1) = CHR '':'' then Inl TooManyColons
            else Inl MissingPort)
      else (let host = take (nat i) hostport in
            if 0 \<le> IndexByte host (CHR '':'') then Inl TooManyColons
            else if 0 \<le> IndexByte hostport (CHR ''['') then Inl UnexpectedOpenBracket
            else if 0 \<le> IndexByte hostport (CHR '']'') then Inl UnexpectedCloseBracket
            else Inr (host, drop (nat (i + 1)) hostport)))"

definition JoinHostPort :: "string \<Rightarrow> string \<Rightarrow> string" where
  \<comment> \<open>\<open>net.JoinHostPort\<close>: a host with a colon is taken for an IPv6 literal\<close>
  "JoinHostPort host port =
     (if 0 \<le> IndexByte host (CHR '':'') then ''['' @ host @ '']:'' @ port
      else host @ '':'' @ port)"

definition To4 :: "IP \<Rightarrow> IP option" where
  \<comment> \<open>\<open>IP.To4\<close>: the four bytes of an IPv4 address, also from its 16-byte form\<close>
  "To4 ip =
     (if length ip = 4 then Some ip
      else if length ip = 16 \<and> list_all (\<lambda>b. b = 0) (take 10 ip) \<and>
              ip ! 10 = 0xff \<and> ip ! 11 = 0xff
      then Some (drop 12 ip)
      else None)"

definition IPv6loopback :: IP where
  "IPv6loopback = [0, 0, 0, 0, 0, 0, 0, 0, 0, 0, 0, 0, 0, 0, 0, 1]"

definition IsLoopback :: "IP \<Rightarrow> bool" where
  \<comment> \<open>\<open>IP.IsLoopback\<close>: 127.0.0.0/8 or ::1\<close>
  "IsLoopback ip = (case To4 ip of Some ip4 \<Rightarrow> ip4 ! 0 = 127 | None \<Rightarrow> ip = IPv6loopback)"

subsection \<open>proxy.go\<close>

record Config =
  HTTPProxy :: string
  HTTPSProxy :: string
  NoProxy :: string

datatype error = InvalidProxyAddress string string
  \<comment> \<open>\<open>fmt.Errorf("invalid proxy address %q: %v", proxy, err)\<close>: the candidate and the
      text of the parse error\<close>

definition hasPort :: "string \<Rightarrow> bool" where
  \<comment> \<open>line 188\<close>
  "hasPort s = (LastIndex s (CHR '':'') > LastIndex s (CHR '']''))"

definition portMap :: "string \<rightharpoonup> string" where
  \<comment> \<open>lines 167-171\<close>
  "portMap = [''http'' \<mapsto> ''80'', ''https'' \<mapsto> ''443'', ''socks5'' \<mapsto> ''1080'']"

definition map_index :: "(string \<rightharpoonup> string) \<Rightarrow> string \<Rightarrow> string" where
  \<comment> \<open>\<open>m[k]\<close> on a Go map: the empty string for a missing key\<close>
  "map_index m k = (case m k of None \<Rightarrow> [] | Some v \<Rightarrow> v)"

definition idnaASCII :: "stdlib \<Rightarrow> string \<Rightarrow> string + string" where
  \<comment> \<open>lines 190-204\<close>
  "idnaASCII sl v = (if isASCII v then Inr v else ToASCII sl v)"

definition canonicalAddr :: "stdlib \<Rightarrow> URL \<Rightarrow> string" where
  \<comment> \<open>lines 174-184\<close>
  "canonicalAddr sl url =
     (let addr = Hostname sl url;
          addr = (case idnaASCII sl addr of Inr v \<Rightarrow> v | Inl err \<Rightarrow> addr);
          port = Port sl url;
          port = (if port = [] then map_index portMap (Scheme url) else port)
      in JoinHostPort addr port)"

definition stripPort :: "string \<Rightarrow> string result" where
  \<comment> \<open>lines 136-138 and 145-147: \<open>if hasPort(s) { s = s[:strings.LastIndex(s, ":")] }\<close>\<close>
  "stripPort s = (if hasPort s then slice_to s (LastIndex s (CHR '':'')) else Inr s)"

definition leadingDotMatch :: "string \<Rightarrow> string \<Rightarrow> bool result" where
  \<comment> \<open>the condition of line 155, left to right:
      \<open>p[0] == '.' && (strings.HasSuffix(addr, p) || addr == p[1:])\<close>\<close>
  "leadingDotMatch addr p =
     (case index p 0 of
        Inl e \<Rightarrow> Inl e
      | Inr c \<Rightarrow>
          if c \<noteq> CHR ''.'' then Inr False
          else if HasSuffix addr p then Inr True
          else (case slice_from p 1 of Inl e \<Rightarrow> Inl e | Inr t \<Rightarrow> Inr (addr = t)))"

definition domainMatch :: "string \<Rightarrow> string \<Rightarrow> bool result" where
  \<comment> \<open>the condition of line 159, left to right:
      \<open>p[0] != '.' && strings.HasSuffix(addr, p) && addr[len(addr)-len(p)-1] == '.'\<close>\<close>
  "domainMatch addr p =
     (case index p 0 of
        Inl e \<Rightarrow> Inl e
      | Inr c \<Rightarrow>
          if c = CHR ''.'' then Inr False
          else if \<not> HasSuffix addr p then Inr False
          else (case index addr (int (length addr) - int (length p) - 1) of
                  Inl e \<Rightarrow> Inl e
                | Inr d \<Rightarrow> Inr (d = CHR ''.'')))"

definition useProxy_entry :: "stdlib \<Rightarrow> string \<Rightarrow> string \<Rightarrow> bool result" where
  \<comment> \<open>lines 141-162, the body of the loop for one piece \<open>p\<close> of \<open>NoProxy\<close>: \<open>Inr True\<close>
      when the body returns false from \<open>useProxy\<close>, \<open>Inr False\<close> when the loop goes on\<close>
  "useProxy_entry sl addr p =
     (let p = ToLower sl (TrimSpace sl p) in
      if length p = 0 then Inr False
      else case stripPort p of
        Inl e \<Rightarrow> Inl e
      | Inr p \<Rightarrow>
          if addr = p then Inr True
          else if length p = 0 then Inr False
          else (case leadingDotMatch addr p of
                  Inl e \<Rightarrow> Inl e
                | Inr True \<Rightarrow> Inr True
                | Inr False \<Rightarrow> domainMatch addr p))"

fun useProxy_loop :: "stdlib \<Rightarrow> string \<Rightarrow> string list \<Rightarrow> bool result" where
  \<comment> \<open>lines 140-164: the loop over the pieces, and the final \<open>return true\<close>\<close>
  "useProxy_loop sl addr [] = Inr True"
| "useProxy_loop sl addr (p # ps) =
     (case useProxy_entry sl addr p of
        Inl e \<Rightarrow> Inl e
      | Inr True \<Rightarrow> Inr False
      | Inr False \<Rightarrow> useProxy_loop sl addr ps)"

definition useProxy :: "stdlib \<Rightarrow> Config \<Rightarrow> string \<Rightarrow> bool result" where
  \<comment> \<open>lines 113-165\<close>
  "useProxy sl cfg addr =
     (if length addr = 0 then Inr True
      else case SplitHostPort addr of
        Inl err \<Rightarrow> Inr False
      | Inr (host, port) \<Rightarrow>
          if host = ''localhost'' then Inr False
          else if (case ParseIP sl host of None \<Rightarrow> False | Some ip \<Rightarrow> IsLoopback ip)
          then Inr False
          else let noProxy = NoProxy cfg in
            if noProxy = ''*'' then Inr False
            else case stripPort (ToLower sl (TrimSpace sl addr)) of
              Inl e \<Rightarrow> Inl e
            | Inr addr \<Rightarrow> useProxy_loop sl addr (Split noProxy (CHR '','')))"

definition candidate :: "Config \<Rightarrow> URL \<Rightarrow> string" where
  \<comment> \<open>lines 79-85 of \<open>ProxyForURL\<close>: the value of \<open>proxy\<close> after the two assignments\<close>
  "candidate cfg reqURL =
     (let proxy = (if Scheme reqURL = ''https'' then HTTPSProxy cfg else []);
          proxy = (if proxy = [] then HTTPProxy cfg else proxy)
      in proxy)"

definition parseProxy :: "stdlib \<Rightarrow> string \<Rightarrow> URL option \<times> error option" where
  \<comment> \<open>lines 92-107 of \<open>ProxyForURL\<close>. The \<open>proxyURL, err\<close> declared by the inner \<open>if\<close>
      (line 100) are local to it: lines 104-107 read the first parse\<close>
  "parseProxy sl proxy =
     (let parsed = Parse sl proxy;
          bogus = (case parsed of
                     Inl err \<Rightarrow> True
                   | Inr proxyURL \<Rightarrow> Scheme proxyURL \<noteq> ''http'' \<and>
                       Scheme proxyURL \<noteq> ''https'' \<and> Scheme proxyURL \<noteq> ''socks5'');
          repaired = (if bogus
                      then (case Parse sl (''http://'' @ proxy) of
                              Inr proxyURL' \<Rightarrow> Some proxyURL'
                            | Inl err' \<Rightarrow> None)
                      else None)
      in case repaired of
           Some proxyURL' \<Rightarrow> (Some proxyURL', None)
         | None \<Rightarrow>
             (case parsed of
                Inl err \<Rightarrow> (None, Some (InvalidProxyAddress proxy err))
              | Inr proxyURL \<Rightarrow> (Some proxyURL, None)))"

definition ProxyForURL :: "stdlib \<Rightarrow> Config \<Rightarrow> URL \<Rightarrow> (URL option \<times> error option) result" where
  \<comment> \<open>lines 78-108; the pair is Go's \<open>(*url.URL, error)\<close>, \<open>None\<close> for \<open>nil\<close>\<close>
  "ProxyForURL sl cfg reqURL =
     (let proxy = candidate cfg reqURL
      in if proxy = [] then Inr (None, None)
      else case useProxy sl cfg (canonicalAddr sl reqURL) of
        Inl e \<Rightarrow> Inl e
      | Inr False \<Rightarrow> Inr (None, None)
      | Inr True \<Rightarrow> Inr (parseProxy sl proxy))"

subsection \<open>Sample values of the library\<close>

text \<open>
  The examples below need the library's answers on a few inputs. \<open>go_sample\<close> tabulates
  them: what Go's \<open>url.Parse\<close>, \<open>net.ParseIP\<close>, \<open>idna.Lookup.ToASCII\<close> and
  \<open>strings.ToLower\<close> return on the strings listed (error texts shortened), and a
  failure or the argument itself elsewhere. \<open>Hostname\<close> and \<open>Port\<close> are those of a URL
  whose \<open>Host\<close> has no port. \<open>kelvin_com\<close> is the UTF-8 text of the host name
  made of U+212A (KELVIN SIGN) and \<open>.com\<close>: Unicode lower-cases U+212A to \<open>k\<close>, and
  IDNA maps it to \<open>k\<close> as well. \<open>buecher_de\<close> is the UTF-8 text of \<open>b\<close>, U+00FC,
  \<open>cher.de\<close>, whose IDNA form is \<open>xn--bcher-kva.de\<close>.
\<close>

definition kelvin_com :: string where
  "kelvin_com = [CHR 0xE2, CHR 0x84, CHR 0xAA] @ ''.com''"

definition buecher_de :: string where
  "buecher_de = ''b'' @ [CHR 0xC3, CHR 0xBC] @ ''cher.de''"

definition go_sample :: stdlib where
  "go_sample = \<lparr>
     Parse = (\<lambda>s.
       if s = ''foo:%zz''
       then Inr \<lparr>Scheme = ''foo'', Opaque = ''%zz'', Host = [], Path = [],
                 RawQuery = [], Fragment = []\<rparr>
       else if s = ''http://127.0.0.1:8080''
       then Inr \<lparr>Scheme = ''http'', Opaque = [], Host = ''127.0.0.1:8080'', Path = [],
                 RawQuery = [], Fragment = []\<rparr>
       else if s = ''127.0.0.1:8080''
       then Inl ''first path segment in URL cannot contain colon''
       else if s = ''http://foo:%zz'' then Inl ''invalid port after host''
       else if s = ''%zz'' \<or> s = ''http://%zz'' then Inl ''invalid URL escape''
       else Inl ''not tabulated''),
     Hostname = Host,
     Port = (\<lambda>u. []),
     ToASCII = (\<lambda>s.
       if s = kelvin_com then Inr ''k.com''
       else if s = buecher_de then Inr ''xn--bcher-kva.de''
       else Inl ''idna: not tabulated''),
     ParseIP = (\<lambda>s.
       if s = ''127.0.0.1'' then Some [0, 0, 0, 0, 0, 0, 0, 0, 0, 0, 0xff, 0xff, 127, 0, 0, 1]
       else if s = ''::1'' then Some IPv6loopback
       else None),
     ToLower_unicode = (\<lambda>s. if s = kelvin_com then ''k.com'' else s),
     TrimSpace_unicode = (\<lambda>s. s)\<rparr>"

definition example_request :: URL where
  \<comment> \<open>\<open>http://example.com\<close>, the request of the package's tests\<close>
  "example_request = \<lparr>Scheme = ''http'', Opaque = [], Host = ''example.com'', Path = [],
     RawQuery = [], Fragment = []\<rparr>"

definition kelvin_request :: URL where
  \<comment> \<open>the request \<open>http://\<close>\<open>kelvin_com\<close>\<close>
  "kelvin_request = \<lparr>Scheme = ''http'', Opaque = [], Host = kelvin_com, Path = [],
     RawQuery = [], Fragment = []\<rparr>"

definition buecher_request :: URL where
  \<comment> \<open>the request \<open>http://\<close>\<open>buecher_de\<close>\<close>
  "buecher_request = \<lparr>Scheme = ''http'', Opaque = [], Host = buecher_de, Path = [],
     RawQuery = [], Fragment = []\<rparr>"

subsection \<open>The specification's selection rule\<close>

definition spec_candidate :: "Config \<Rightarrow> URL \<Rightarrow> string" where
  \<comment> \<open>the specification's rule: \<open>httpsProxy\<close> if the request scheme is \<open>https\<close> and
      \<open>httpsProxy\<close> is non-empty; otherwise \<open>httpProxy\<close>\<close>
  "spec_candidate cfg reqURL =
     (if Scheme reqURL = ''https'' \<and> HTTPSProxy cfg \<noteq> [] then HTTPSProxy cfg
      else HTTPProxy cfg)"

section \<open>Properties\<close>

subsection \<open>Indices and slices stay in range\<close>

lemma LastIndex_from_range:
  "LastIndex_from i found s c = found \<or>
   (int i \<le> LastIndex_from i found s c \<and> LastIndex_from i found s c < int i + int (length s))"
proof (induction s arbitrary: i found)
  case Nil
  then show ?case by simp
next
  case (Cons x s)
  show ?case
    using Cons.IH [of "Suc i" "if x = c then int i else found"]
    by (auto split: if_splits)
qed

lemma LastIndex_lower: "- 1 \<le> LastIndex s c"
  using LastIndex_from_range [of 0 "- 1" s c] by (auto simp: LastIndex_def)

lemma LastIndex_le_length: "LastIndex s c \<le> int (length s)"
  using LastIndex_from_range [of 0 "- 1" s c] by (auto simp: LastIndex_def)

lemma stripPort_eq:
  "stripPort s = Inr (if hasPort s then take (nat (LastIndex s (CHR '':''))) s else s)"
proof (cases "hasPort s")
  case True
  then have "0 \<le> LastIndex s (CHR '':'')"
    using LastIndex_lower [of s "CHR '']''"] by (simp add: hasPort_def)
  then show ?thesis
    using True LastIndex_le_length [of s "CHR '':''"] by (simp add: stripPort_def slice_to_def)
next
  case False
  then show ?thesis by (simp add: stripPort_def)
qed

lemma SplitHostPort_nonempty: "SplitHostPort addr = Inr hp \<Longrightarrow> addr \<noteq> []"
  by (auto simp: SplitHostPort_def LastIndex_def)

subsection \<open>The loopback rule\<close>

lemma IsLoopback_ipv4: "IsLoopback [127, b, c, d]"
  by (simp add: IsLoopback_def To4_def)

lemma IsLoopback_ipv4_in_ipv6:
  "IsLoopback [0, 0, 0, 0, 0, 0, 0, 0, 0, 0, 0xff, 0xff, 127, b, c, d]"
  by (simp add: IsLoopback_def To4_def)

lemma IsLoopback_ipv6: "IsLoopback IPv6loopback"
  by (simp add: IsLoopback_def To4_def IPv6loopback_def)

text \<open>
  C2. An address that splits into host and port, whose host is \<open>localhost\<close> or parses as
  a loopback IP address, is never proxied, whatever the configuration: \<open>useProxy\<close>
  answers false, for every \<open>NoProxy\<close> string, before it reads \<open>NoProxy\<close>.
\<close>

theorem C2_loopback_never_proxied:
  assumes "SplitHostPort addr = Inr (host, port)"
    and "host = ''localhost'' \<or>
         (case ParseIP sl host of None \<Rightarrow> False | Some ip \<Rightarrow> IsLoopback ip)"
  shows "useProxy sl cfg addr = Inr False"
  using assms SplitHostPort_nonempty [OF assms(1)] by (auto simp: useProxy_def)

theorem C2_loopback_never_proxied_witness:
  "SplitHostPort ''localhost:80'' = Inr (''localhost'', ''80'') \<and>
   useProxy go_sample \<lparr>HTTPProxy = ''proxy'', HTTPSProxy = [], NoProxy = ''example.com''\<rparr>
     ''localhost:80'' = Inr False \<and>
   SplitHostPort ''127.0.0.1:80'' = Inr (''127.0.0.1'', ''80'') \<and>
   ParseIP go_sample ''127.0.0.1'' =
     Some [0, 0, 0, 0, 0, 0, 0, 0, 0, 0, 0xff, 0xff, 127, 0, 0, 1] \<and>
   useProxy go_sample \<lparr>HTTPProxy = ''proxy'', HTTPSProxy = [], NoProxy = []\<rparr>
     ''127.0.0.1:80'' = Inr False \<and>
   SplitHostPort ''[::1]:80'' = Inr (''::1'', ''80'') \<and>
   useProxy go_sample \<lparr>HTTPProxy = ''proxy'', HTTPSProxy = [], NoProxy = []\<rparr>
     ''[::1]:80'' = Inr False"
proof -
  have s1: "SplitHostPort ''localhost:80'' = Inr (''localhost'', ''80'')"
    by (simp add: SplitHostPort_def LastIndex_def IndexByte_def)
  have s2: "SplitHostPort ''127.0.0.1:80'' = Inr (''127.0.0.1'', ''80'')"
    by (simp add: SplitHostPort_def LastIndex_def IndexByte_def)
  have s3: "SplitHostPort ''[::1]:80'' = Inr (''::1'', ''80'')"
    by (simp add: SplitHostPort_def LastIndex_def IndexByte_def)
  have p2: "ParseIP go_sample ''127.0.0.1'' =
      Some [0, 0, 0, 0, 0, 0, 0, 0, 0, 0, 0xff, 0xff, 127, 0, 0, 1]"
    by (simp add: go_sample_def)
  have p3: "ParseIP go_sample ''::1'' = Some IPv6loopback"
    by (simp add: go_sample_def)
  show ?thesis
    using s1 s2 s3 p2
      C2_loopback_never_proxied [OF s1, of go_sample]
      C2_loopback_never_proxied [OF s2, of go_sample]
      C2_loopback_never_proxied [OF s3, of go_sample]
    by (simp add: p2 p3 IsLoopback_ipv4_in_ipv6 IsLoopback_ipv6)
qed

subsection \<open>One entry of \<open>NoProxy\<close>\<close>

lemma HasSuffix_refl: "HasSuffix a a"
  by (simp add: HasSuffix_def)

lemma HasSuffix_length: "HasSuffix a p \<Longrightarrow> a \<noteq> p \<Longrightarrow> length p < length a"
  by (cases "length a = length p") (auto simp: HasSuffix_def)

lemma leadingDotMatch_eq:
  assumes "p \<noteq> []"
  shows "leadingDotMatch a p = Inr (hd p = CHR ''.'' \<and> (HasSuffix a p \<or> a = drop 1 p))"
  using assms by (cases p) (auto simp: leadingDotMatch_def index_def slice_from_def)

lemma domainMatch_eq:
  assumes "p \<noteq> []" and "a \<noteq> p"
  shows "domainMatch a p =
     Inr (hd p \<noteq> CHR ''.'' \<and> HasSuffix a p \<and> length p < length a \<and>
          a ! (length a - length p - 1) = CHR ''.'')"
proof (cases "HasSuffix a p")
  case True
  then have "length p < length a"
    using assms(2) by (rule HasSuffix_length)
  then show ?thesis
    using assms(1) True
    by (cases p) (auto simp: domainMatch_def index_def nat_diff_distrib)
next
  case False
  then show ?thesis
    using assms(1) by (cases p) (auto simp: domainMatch_def index_def)
qed

lemma useProxy_entry_eq:
  assumes "stripPort (ToLower sl (TrimSpace sl p0)) = Inr p"
  shows "useProxy_entry sl a p0 =
     Inr (ToLower sl (TrimSpace sl p0) \<noteq> [] \<and> (a = p \<or> (p \<noteq> [] \<and>
      (if hd p = CHR ''.'' then HasSuffix a p \<or> a = drop 1 p
       else HasSuffix a p \<and> length p < length a \<and>
            a ! (length a - length p - 1) = CHR ''.''))))"
proof (cases "ToLower sl (TrimSpace sl p0) = [] \<or> a = p \<or> p = []")
  case True
  then show ?thesis
    using assms by (auto simp: useProxy_entry_def Let_def)
next
  case False
  then have "useProxy_entry sl a p0 =
      (case leadingDotMatch a p of Inl e \<Rightarrow> Inl e | Inr True \<Rightarrow> Inr True
       | Inr False \<Rightarrow> domainMatch a p)"
    using assms by (simp add: useProxy_entry_def Let_def)
  then show ?thesis
    using False by (auto simp: leadingDotMatch_eq domainMatch_eq split: bool.splits)
qed

lemma stripPort_total: "\<exists>t. stripPort s = Inr t"
  by (simp add: stripPort_eq)

lemma stripPort_Nil: "stripPort s = Inr p \<Longrightarrow> s = [] \<Longrightarrow> p = []"
  by (simp add: stripPort_eq split: if_splits)

lemma useProxy_entry_total: "\<exists>b. useProxy_entry sl a p0 = Inr b"
proof -
  obtain p where "stripPort (ToLower sl (TrimSpace sl p0)) = Inr p"
    using stripPort_total by blast
  then show ?thesis by (simp add: useProxy_entry_eq)
qed

lemma useProxy_loop_eq:
  "useProxy_loop sl a ps = Inr (list_all (\<lambda>p0. useProxy_entry sl a p0 = Inr False) ps)"
proof (induction ps)
  case Nil
  then show ?case by simp
next
  case (Cons p0 ps)
  obtain b where b: "useProxy_entry sl a p0 = Inr b"
    using useProxy_entry_total by blast
  show ?case using Cons.IH b by (cases b) simp_all
qed

lemma useProxy_past_loopback:
  assumes "SplitHostPort addr = Inr (host, port)"
    and "host \<noteq> ''localhost''"
    and "\<not> (case ParseIP sl host of None \<Rightarrow> False | Some ip \<Rightarrow> IsLoopback ip)"
    and "NoProxy cfg \<noteq> ''*''"
    and "stripPort (ToLower sl (TrimSpace sl addr)) = Inr a"
  shows "useProxy sl cfg addr = useProxy_loop sl a (Split (NoProxy cfg) (CHR '',''))"
  using assms SplitHostPort_nonempty [OF assms(1)] by (simp add: useProxy_def)

lemma useProxy_total: "\<exists>b. useProxy sl cfg addr = Inr b"
proof -
  obtain a where a: "stripPort (ToLower sl (TrimSpace sl addr)) = Inr a"
    using stripPort_total by blast
  show ?thesis
    unfolding useProxy_def Let_def
    by (auto simp: a useProxy_loop_eq split: sum.splits prod.splits)
qed

lemma useProxy_loop_hit:
  assumes "p0 \<in> set ps" and "useProxy_entry sl a p0 = Inr True"
  shows "useProxy_loop sl a ps = Inr False"
proof -
  have "useProxy_entry sl a p0 \<noteq> Inr False"
    using assms(2) by simp
  then have "\<not> list_all (\<lambda>p0. useProxy_entry sl a p0 = Inr False) ps"
    using assms(1) by (auto simp: list_all_iff)
  then show ?thesis by (simp add: useProxy_loop_eq)
qed

lemma useProxy_loop_single:
  assumes "useProxy_entry sl a p0 = Inr m"
  shows "useProxy_loop sl a [p0] = Inr (\<not> m)"
  using assms by (cases m) simp_all

lemma list_all_removeAll:
  "x \<in> set xs \<Longrightarrow> list_all P xs = (P x \<and> list_all P (removeAll x xs))"
  by (auto simp: list_all_iff)

subsection \<open>Matching a host against an entry\<close>

text \<open>
  C3. Take an entry \<open>p0\<close> of \<open>NoProxy\<close> whose lower-cased, trimmed, port-stripped form
  \<open>p\<close> is not empty and does not start with a dot. For an address whose lower-cased,
  trimmed, port-stripped form is \<open>a\<close>, the loop body returns false from \<open>useProxy\<close>
  exactly when \<open>a = p\<close>, or \<open>a\<close> ends with \<open>p\<close> and the byte of \<open>a\<close> just before that
  suffix is a dot.
  Past the loopback rule and the asterisk rule, \<open>useProxy\<close> is true exactly when no
  entry of the comma-separated list makes the loop body return; so with \<open>p0\<close> anywhere in
  the list, however long, \<open>useProxy\<close> is false when \<open>p0\<close> matches, and when it does not
  match the result is what the other entries give.
\<close>

theorem C3_entry_without_dot:
  assumes "stripPort (ToLower sl (TrimSpace sl p0)) = Inr p"
    and "p \<noteq> []" and "hd p \<noteq> CHR ''.''"
  shows "useProxy_entry sl a p0 =
           Inr (a = p \<or> (HasSuffix a p \<and> length p < length a \<and>
                a ! (length a - length p - 1) = CHR ''.'')) \<and>
         (SplitHostPort addr = Inr (host, port) \<longrightarrow>
          host \<noteq> ''localhost'' \<longrightarrow>
          \<not> (case ParseIP sl host of None \<Rightarrow> False | Some ip \<Rightarrow> IsLoopback ip) \<longrightarrow>
          NoProxy cfg \<noteq> ''*'' \<longrightarrow>
          stripPort (ToLower sl (TrimSpace sl addr)) = Inr a \<longrightarrow>
            useProxy sl cfg addr =
              Inr (list_all (\<lambda>q. useProxy_entry sl a q = Inr False)
                     (Split (NoProxy cfg) (CHR '',''))) \<and>
            (p0 \<in> set (Split (NoProxy cfg) (CHR '','')) \<longrightarrow>
               useProxy sl cfg addr =
                 Inr (\<not> (a = p \<or> (HasSuffix a p \<and> length p < length a \<and>
                a ! (length a - length p - 1) = CHR ''.'')) \<and>
                      list_all (\<lambda>q. useProxy_entry sl a q = Inr False)
                        (removeAll p0 (Split (NoProxy cfg) (CHR '',''))))) \<and>
            (Split (NoProxy cfg) (CHR '','') = [p0] \<longrightarrow>
               useProxy sl cfg addr =
                 Inr (\<not> (a = p \<or> (HasSuffix a p \<and> length p < length a \<and>
                a ! (length a - length p - 1) = CHR ''.'')))))"
proof -
  let ?m = "a = p \<or> (HasSuffix a p \<and> length p < length a \<and>
                a ! (length a - length p - 1) = CHR ''.'')"
  let ?ps = "Split (NoProxy cfg) (CHR '','')"
  let ?P = "\<lambda>q. useProxy_entry sl a q = Inr False"
  have ne: "ToLower sl (TrimSpace sl p0) \<noteq> []"
    using assms(1,2) stripPort_Nil by blast
  have entry: "useProxy_entry sl a p0 = Inr ?m"
    using assms(2,3) ne by (simp add: useProxy_entry_eq [OF assms(1)])
  have past: "useProxy sl cfg addr = Inr (list_all ?P ?ps) \<and>
      (p0 \<in> set ?ps \<longrightarrow>
         useProxy sl cfg addr = Inr (\<not> ?m \<and> list_all ?P (removeAll p0 ?ps))) \<and>
      (?ps = [p0] \<longrightarrow> useProxy sl cfg addr = Inr (\<not> ?m))"
    if "SplitHostPort addr = Inr (host, port)" "host \<noteq> ''localhost''"
      "\<not> (case ParseIP sl host of None \<Rightarrow> False | Some ip \<Rightarrow> IsLoopback ip)"
      "NoProxy cfg \<noteq> ''*''" "stripPort (ToLower sl (TrimSpace sl addr)) = Inr a"
  proof -
    have "useProxy sl cfg addr = useProxy_loop sl a ?ps"
      using that by (rule useProxy_past_loopback)
    then have loop: "useProxy sl cfg addr = Inr (list_all ?P ?ps)"
      by (simp add: useProxy_loop_eq)
    have p0: "?P p0 = (\<not> ?m)"
      using entry by simp
    have tok: "p0 \<in> set ?ps \<longrightarrow>
        list_all ?P ?ps = (\<not> ?m \<and> list_all ?P (removeAll p0 ?ps))"
      using list_all_removeAll [of p0 ?ps ?P] p0 by blast
    have only: "?ps = [p0] \<longrightarrow> list_all ?P ?ps = (\<not> ?m)"
      using p0 by simp
    show ?thesis using loop tok only by simp
  qed
  show ?thesis using entry past by blast
qed

theorem C3_entry_without_dot_witness:
  "useProxy go_sample \<lparr>HTTPProxy = ''proxy'', HTTPSProxy = [], NoProxy = ''example.com,zzz.org''\<rparr>
     ''example.com:80'' = Inr False \<and>
   useProxy go_sample \<lparr>HTTPProxy = ''proxy'', HTTPSProxy = [], NoProxy = ''example.com,zzz.org''\<rparr>
     ''foo.example.com:80'' = Inr False \<and>
   useProxy go_sample \<lparr>HTTPProxy = ''proxy'', HTTPSProxy = [], NoProxy = ''example.com,zzz.org''\<rparr>
     ''fooexample.com:80'' = Inr True \<and>
   useProxy go_sample \<lparr>HTTPProxy = ''proxy'', HTTPSProxy = [], NoProxy = ''example.com,zzz.org''\<rparr>
     ''zzz.org:80'' = Inr False"
proof -
  let ?cfg = "\<lparr>HTTPProxy = ''proxy'', HTTPSProxy = [], NoProxy = ''example.com,zzz.org''\<rparr>"
  have cfg: "NoProxy ?cfg \<noteq> ''*''"
    by simp
  have ps: "Split (NoProxy ?cfg) (CHR '','') = [''example.com'', ''zzz.org'']"
    by simp
  have p: "stripPort (ToLower go_sample (TrimSpace go_sample ''example.com'')) = Inr ''example.com''"
    by code_simp
  have q: "stripPort (ToLower go_sample (TrimSpace go_sample ''zzz.org'')) = Inr ''zzz.org''"
    by code_simp
  have ip1: "\<not> (case ParseIP go_sample ''example.com'' of None \<Rightarrow> False
                  | Some ip \<Rightarrow> IsLoopback ip)"
    by (simp add: go_sample_def)
  have s1: "SplitHostPort ''example.com:80'' = Inr (''example.com'', ''80'')"
    by (simp add: SplitHostPort_def LastIndex_def IndexByte_def)
  have a1: "stripPort (ToLower go_sample (TrimSpace go_sample ''example.com:80'')) =
      Inr ''example.com''"
    by code_simp
  have ip2: "\<not> (case ParseIP go_sample ''foo.example.com'' of None \<Rightarrow> False
                  | Some ip \<Rightarrow> IsLoopback ip)"
    by (simp add: go_sample_def)
  have s2: "SplitHostPort ''foo.example.com:80'' = Inr (''foo.example.com'', ''80'')"
    by (simp add: SplitHostPort_def LastIndex_def IndexByte_def)
  have a2: "stripPort (ToLower go_sample (TrimSpace go_sample ''foo.example.com:80'')) =
      Inr ''foo.example.com''"
    by code_simp
  have ip3: "\<not> (case ParseIP go_sample ''fooexample.com'' of None \<Rightarrow> False
                  | Some ip \<Rightarrow> IsLoopback ip)"
    by (simp add: go_sample_def)
  have s3: "SplitHostPort ''fooexample.com:80'' = Inr (''fooexample.com'', ''80'')"
    by (simp add: SplitHostPort_def LastIndex_def IndexByte_def)
  have a3: "stripPort (ToLower go_sample (TrimSpace go_sample ''fooexample.com:80'')) =
      Inr ''fooexample.com''"
    by code_simp
  have ip4: "\<not> (case ParseIP go_sample ''zzz.org'' of None \<Rightarrow> False
                  | Some ip \<Rightarrow> IsLoopback ip)"
    by (simp add: go_sample_def)
  have s4: "SplitHostPort ''zzz.org:80'' = Inr (''zzz.org'', ''80'')"
    by (simp add: SplitHostPort_def LastIndex_def IndexByte_def)
  have a4: "stripPort (ToLower go_sample (TrimSpace go_sample ''zzz.org:80'')) =
      Inr ''zzz.org''"
    by code_simp
  have o3: "useProxy_entry go_sample ''fooexample.com'' ''zzz.org'' = Inr False"
    by code_simp
  have r1: "useProxy go_sample ?cfg ''example.com:80'' = Inr False"
    using C3_entry_without_dot [OF p, where cfg = ?cfg and addr = "''example.com:80''" and a = "''example.com''"
        and host = "''example.com''" and port = "''80''"] s1 ip1 cfg a1 ps
    by (simp add: HasSuffix_def)
  have r2: "useProxy go_sample ?cfg ''foo.example.com:80'' = Inr False"
    using C3_entry_without_dot [OF p, where cfg = ?cfg and addr = "''foo.example.com:80''" and a = "''foo.example.com''"
        and host = "''foo.example.com''" and port = "''80''"] s2 ip2 cfg a2 ps
    by (simp add: HasSuffix_def)
  have r3: "useProxy go_sample ?cfg ''fooexample.com:80'' = Inr True"
    using C3_entry_without_dot [OF p, where cfg = ?cfg and addr = "''fooexample.com:80''" and a = "''fooexample.com''"
        and host = "''fooexample.com''" and port = "''80''"] s3 ip3 cfg a3 ps o3
    by (simp add: HasSuffix_def)
  have r4: "useProxy go_sample ?cfg ''zzz.org:80'' = Inr False"
    using C3_entry_without_dot [OF q, where cfg = ?cfg and addr = "''zzz.org:80''"
        and a = "''zzz.org''" and host = "''zzz.org''" and port = "''80''"] s4 ip4 cfg a4 ps
    by (simp add: HasSuffix_def)
  show ?thesis using r1 r2 r3 r4 by simp
qed

text \<open>
  C4. Take an entry \<open>p0\<close> of \<open>NoProxy\<close> whose lower-cased, trimmed, port-stripped form
  \<open>p\<close> starts with a dot. For an address whose lower-cased, trimmed, port-stripped form
  is \<open>a\<close>, the loop body returns false from \<open>useProxy\<close> exactly when \<open>a\<close> ends with \<open>p\<close>,
  or \<open>a\<close> is \<open>p\<close> without its leading dot.
  Past the loopback rule and the asterisk rule, \<open>useProxy\<close> is true exactly when no
  entry of the comma-separated list makes the loop body return; so with \<open>p0\<close> anywhere in
  the list, however long, \<open>useProxy\<close> is false when \<open>p0\<close> matches, and when it does not
  match the result is what the other entries give.
\<close>

theorem C4_entry_with_dot:
  assumes "stripPort (ToLower sl (TrimSpace sl p0)) = Inr p"
    and "p \<noteq> []" and "hd p = CHR ''.''"
  shows "useProxy_entry sl a p0 =
           Inr (HasSuffix a p \<or> a = drop 1 p) \<and>
         (SplitHostPort addr = Inr (host, port) \<longrightarrow>
          host \<noteq> ''localhost'' \<longrightarrow>
          \<not> (case ParseIP sl host of None \<Rightarrow> False | Some ip \<Rightarrow> IsLoopback ip) \<longrightarrow>
          NoProxy cfg \<noteq> ''*'' \<longrightarrow>
          stripPort (ToLower sl (TrimSpace sl addr)) = Inr a \<longrightarrow>
            useProxy sl cfg addr =
              Inr (list_all (\<lambda>q. useProxy_entry sl a q = Inr False)
                     (Split (NoProxy cfg) (CHR '',''))) \<and>
            (p0 \<in> set (Split (NoProxy cfg) (CHR '','')) \<longrightarrow>
               useProxy sl cfg addr =
                 Inr (\<not> (HasSuffix a p \<or> a = drop 1 p) \<and>
                      list_all (\<lambda>q. useProxy_entry sl a q = Inr False)
                        (removeAll p0 (Split (NoProxy cfg) (CHR '',''))))) \<and>
            (Split (NoProxy cfg) (CHR '','') = [p0] \<longrightarrow>
               useProxy sl cfg addr =
                 Inr (\<not> (HasSuffix a p \<or> a = drop 1 p))))"
proof -
  let ?m = "HasSuffix a p \<or> a = drop 1 p"
  let ?ps = "Split (NoProxy cfg) (CHR '','')"
  let ?P = "\<lambda>q. useProxy_entry sl a q = Inr False"
  have ne: "ToLower sl (TrimSpace sl p0) \<noteq> []"
    using assms(1,2) stripPort_Nil by blast
  have entry: "useProxy_entry sl a p0 = Inr ?m"
    using assms(2,3) ne HasSuffix_refl [of p]
    by (auto simp: useProxy_entry_eq [OF assms(1)])
  have past: "useProxy sl cfg addr = Inr (list_all ?P ?ps) \<and>
      (p0 \<in> set ?ps \<longrightarrow>
         useProxy sl cfg addr = Inr (\<not> ?m \<and> list_all ?P (removeAll p0 ?ps))) \<and>
      (?ps = [p0] \<longrightarrow> useProxy sl cfg addr = Inr (\<not> ?m))"
    if "SplitHostPort addr = Inr (host, port)" "host \<noteq> ''localhost''"
      "\<not> (case ParseIP sl host of None \<Rightarrow> False | Some ip \<Rightarrow> IsLoopback ip)"
      "NoProxy cfg \<noteq> ''*''" "stripPort (ToLower sl (TrimSpace sl addr)) = Inr a"
  proof -
    have "useProxy sl cfg addr = useProxy_loop sl a ?ps"
      using that by (rule useProxy_past_loopback)
    then have loop: "useProxy sl cfg addr = Inr (list_all ?P ?ps)"
      by (simp add: useProxy_loop_eq)
    have p0: "?P p0 = (\<not> ?m)"
      using entry by simp
    have tok: "p0 \<in> set ?ps \<longrightarrow>
        list_all ?P ?ps = (\<not> ?m \<and> list_all ?P (removeAll p0 ?ps))"
      using list_all_removeAll [of p0 ?ps ?P] p0 by blast
    have only: "?ps = [p0] \<longrightarrow> list_all ?P ?ps = (\<not> ?m)"
      using p0 by simp
    show ?thesis using loop tok only by simp
  qed
  show ?thesis using entry past by blast
qed

theorem C4_entry_with_dot_witness:
  "useProxy go_sample \<lparr>HTTPProxy = ''proxy'', HTTPSProxy = [], NoProxy = ''.foo.com,zzz.org''\<rparr>
     ''bar.foo.com:80'' = Inr False \<and>
   useProxy go_sample \<lparr>HTTPProxy = ''proxy'', HTTPSProxy = [], NoProxy = ''.foo.com,zzz.org''\<rparr>
     ''foo.com:80'' = Inr False \<and>
   useProxy go_sample \<lparr>HTTPProxy = ''proxy'', HTTPSProxy = [], NoProxy = ''.foo.com,zzz.org''\<rparr>
     ''xfoo.com:80'' = Inr True"
proof -
  let ?cfg = "\<lparr>HTTPProxy = ''proxy'', HTTPSProxy = [], NoProxy = ''.foo.com,zzz.org''\<rparr>"
  have cfg: "NoProxy ?cfg \<noteq> ''*''"
    by simp
  have ps: "Split (NoProxy ?cfg) (CHR '','') = [''.foo.com'', ''zzz.org'']"
    by simp
  have p: "stripPort (ToLower go_sample (TrimSpace go_sample ''.foo.com'')) = Inr ''.foo.com''"
    by code_simp
  have ip1: "\<not> (case ParseIP go_sample ''bar.foo.com'' of None \<Rightarrow> False
                  | Some ip \<Rightarrow> IsLoopback ip)"
    by (simp add: go_sample_def)
  have s1: "SplitHostPort ''bar.foo.com:80'' = Inr (''bar.foo.com'', ''80'')"
    by (simp add: SplitHostPort_def LastIndex_def IndexByte_def)
  have a1: "stripPort (ToLower go_sample (TrimSpace go_sample ''bar.foo.com:80'')) =
      Inr ''bar.foo.com''"
    by code_simp
  have ip2: "\<not> (case ParseIP go_sample ''foo.com'' of None \<Rightarrow> False
                  | Some ip \<Rightarrow> IsLoopback ip)"
    by (simp add: go_sample_def)
  have s2: "SplitHostPort ''foo.com:80'' = Inr (''foo.com'', ''80'')"
    by (simp add: SplitHostPort_def LastIndex_def IndexByte_def)
  have a2: "stripPort (ToLower go_sample (TrimSpace go_sample ''foo.com:80'')) =
      Inr ''foo.com''"
    by code_simp
  have ip3: "\<not> (case ParseIP go_sample ''xfoo.com'' of None \<Rightarrow> False
                  | Some ip \<Rightarrow> IsLoopback ip)"
    by (simp add: go_sample_def)
  have s3: "SplitHostPort ''xfoo.com:80'' = Inr (''xfoo.com'', ''80'')"
    by (simp add: SplitHostPort_def LastIndex_def IndexByte_def)
  have a3: "stripPort (ToLower go_sample (TrimSpace go_sample ''xfoo.com:80'')) =
      Inr ''xfoo.com''"
    by code_simp
  have o3: "useProxy_entry go_sample ''xfoo.com'' ''zzz.org'' = Inr False"
    by code_simp
  have r1: "useProxy go_sample ?cfg ''bar.foo.com:80'' = Inr False"
    using C4_entry_with_dot [OF p, where cfg = ?cfg and addr = "''bar.foo.com:80''" and a = "''bar.foo.com''"
        and host = "''bar.foo.com''" and port = "''80''"] s1 ip1 cfg a1 ps
    by (simp add: HasSuffix_def)
  have r2: "useProxy go_sample ?cfg ''foo.com:80'' = Inr False"
    using C4_entry_with_dot [OF p, where cfg = ?cfg and addr = "''foo.com:80''" and a = "''foo.com''"
        and host = "''foo.com''" and port = "''80''"] s2 ip2 cfg a2 ps
    by (simp add: HasSuffix_def)
  have r3: "useProxy go_sample ?cfg ''xfoo.com:80'' = Inr True"
    using C4_entry_with_dot [OF p, where cfg = ?cfg and addr = "''xfoo.com:80''" and a = "''xfoo.com''"
        and host = "''xfoo.com''" and port = "''80''"] s3 ip3 cfg a3 ps o3
    by (simp add: HasSuffix_def)
  show ?thesis using r1 r2 r3 by simp
qed

subsection \<open>Malformed entries\<close>

text \<open>
  C8 (as the code has it). \<open>useProxy\<close> never panics, whatever the address and
  \<open>NoProxy\<close>. An entry that is empty after trimming never matches. An entry whose host
  part is empty after port-stripping is compared with the address first (line 148) and
  skipped after (line 151): it does not match an address whose lower-cased, trimmed,
  port-stripped form \<open>a\<close> is not empty. With \<open>NoProxy = ":1"\<close>, \<open>useProxy\<close> is true for
  every address that splits into host and port, is past the loopback rule, and has a
  non-empty \<open>a\<close>.
\<close>

theorem C8_malformed_entry:
  "(\<exists>b. useProxy sl cfg addr = Inr b) \<and>
   (ToLower sl (TrimSpace sl p0) = [] \<longrightarrow> useProxy_entry sl a p0 = Inr False) \<and>
   (stripPort (ToLower sl (TrimSpace sl p0)) = Inr [] \<longrightarrow> a \<noteq> [] \<longrightarrow>
      useProxy_entry sl a p0 = Inr False) \<and>
   (NoProxy cfg = '':1'' \<longrightarrow>
      SplitHostPort addr = Inr (host, port) \<longrightarrow>
      host \<noteq> ''localhost'' \<longrightarrow>
      \<not> (case ParseIP sl host of None \<Rightarrow> False | Some ip \<Rightarrow> IsLoopback ip) \<longrightarrow>
      stripPort (ToLower sl (TrimSpace sl addr)) = Inr a \<longrightarrow> a \<noteq> [] \<longrightarrow>
      useProxy sl cfg addr = Inr True)"
proof -
  have total: "\<exists>b. useProxy sl cfg addr = Inr b"
    by (rule useProxy_total)
  have blank: "ToLower sl (TrimSpace sl p0) = [] \<longrightarrow> useProxy_entry sl a p0 = Inr False"
    by (simp add: useProxy_entry_def)
  have nohost: "stripPort (ToLower sl (TrimSpace sl p0)) = Inr [] \<longrightarrow> a \<noteq> [] \<longrightarrow>
      useProxy_entry sl a p0 = Inr False"
    by (auto simp: useProxy_entry_eq)
  have strip: "stripPort (ToLower sl (TrimSpace sl '':1'')) = Inr []"
    by code_simp
  have entry: "a \<noteq> [] \<Longrightarrow> useProxy_entry sl a '':1'' = Inr False" for a
    by (auto simp: useProxy_entry_eq [OF strip])
  have colon1: "NoProxy cfg = '':1'' \<longrightarrow>
      SplitHostPort addr = Inr (host, port) \<longrightarrow>
      host \<noteq> ''localhost'' \<longrightarrow>
      \<not> (case ParseIP sl host of None \<Rightarrow> False | Some ip \<Rightarrow> IsLoopback ip) \<longrightarrow>
      stripPort (ToLower sl (TrimSpace sl addr)) = Inr a \<longrightarrow> a \<noteq> [] \<longrightarrow>
      useProxy sl cfg addr = Inr True"
  proof (intro impI)
    assume h: "NoProxy cfg = '':1''" "SplitHostPort addr = Inr (host, port)"
      "host \<noteq> ''localhost''"
      "\<not> (case ParseIP sl host of None \<Rightarrow> False | Some ip \<Rightarrow> IsLoopback ip)"
      "stripPort (ToLower sl (TrimSpace sl addr)) = Inr a" "a \<noteq> []"
    have "NoProxy cfg \<noteq> ''*''" using h(1) by simp
    then have "useProxy sl cfg addr = useProxy_loop sl a (Split (NoProxy cfg) (CHR '',''))"
      using h(2-5) useProxy_past_loopback by blast
    then show "useProxy sl cfg addr = Inr True"
      using entry [OF h(6)] by (simp add: h(1))
  qed
  show ?thesis using total blank nohost colon1 by blast
qed

theorem C8_malformed_entry_witness:
  "SplitHostPort ''example.com:80'' = Inr (''example.com'', ''80'') \<and>
   stripPort (ToLower go_sample (TrimSpace go_sample ''example.com:80'')) =
     Inr ''example.com'' \<and>
   useProxy go_sample \<lparr>HTTPProxy = ''proxy'', HTTPSProxy = [], NoProxy = '':1''\<rparr>
     ''example.com:80'' = Inr True \<and>
   useProxy_entry go_sample ''example.com'' '':1'' = Inr False \<and>
   useProxy_entry go_sample ''example.com'' '' '' = Inr False"
proof -
  let ?cfg = "\<lparr>HTTPProxy = ''proxy'', HTTPSProxy = [], NoProxy = '':1''\<rparr>"
  have s: "SplitHostPort ''example.com:80'' = Inr (''example.com'', ''80'')"
    by (simp add: SplitHostPort_def LastIndex_def IndexByte_def)
  have a: "stripPort (ToLower go_sample (TrimSpace go_sample ''example.com:80'')) =
      Inr ''example.com''"
    by code_simp
  have ip: "\<not> (case ParseIP go_sample ''example.com'' of None \<Rightarrow> False
                 | Some ip \<Rightarrow> IsLoopback ip)"
    by (simp add: go_sample_def)
  have p1: "stripPort (ToLower go_sample (TrimSpace go_sample '':1'')) = Inr []"
    by code_simp
  have p2: "ToLower go_sample (TrimSpace go_sample '' '') = []"
    by code_simp
  have r: "useProxy go_sample ?cfg ''example.com:80'' = Inr True"
    using C8_malformed_entry [where sl = go_sample and cfg = ?cfg and addr = "''example.com:80''"
        and a = "''example.com''" and host = "''example.com''" and port = "''80''"] s a ip
    by simp
  have e1: "useProxy_entry go_sample ''example.com'' '':1'' = Inr False"
    using C8_malformed_entry [of go_sample _ _ "'':1''" "''example.com''"]
      p1 by simp
  have e2: "useProxy_entry go_sample ''example.com'' '' '' = Inr False"
    using C8_malformed_entry [of go_sample _ _ "'' ''" "''example.com''"]
      p2 by simp
  show ?thesis using s a r e1 e2 by simp
qed

theorem C8_empty_host_counterexample:
  "SplitHostPort '':80'' = Inr ([], ''80'') \<and>
   ParseIP go_sample [] = None \<and>
   useProxy go_sample \<lparr>HTTPProxy = ''proxy'', HTTPSProxy = [], NoProxy = '':1''\<rparr> '':80'' =
     Inr False \<and>
   SplitHostPort ''a]b:80'' = Inl UnexpectedCloseBracket \<and>
   useProxy go_sample \<lparr>HTTPProxy = ''proxy'', HTTPSProxy = [], NoProxy = '':1''\<rparr>
     ''a]b:80'' = Inr False"
proof -
  have s: "SplitHostPort '':80'' = Inr ([], ''80'')"
    by (simp add: SplitHostPort_def LastIndex_def IndexByte_def)
  have ip: "ParseIP go_sample [] = None"
    by (simp add: go_sample_def)
  have a: "stripPort (ToLower go_sample (TrimSpace go_sample '':80'')) = Inr []"
    by code_simp
  have e: "useProxy_entry go_sample [] '':1'' = Inr True"
    by code_simp
  have r: "useProxy go_sample \<lparr>HTTPProxy = ''proxy'', HTTPSProxy = [], NoProxy = '':1''\<rparr>
      '':80'' = Inr False"
    by (simp add: useProxy_def s ip a e)
  have s': "SplitHostPort ''a]b:80'' = Inl UnexpectedCloseBracket"
    by (simp add: SplitHostPort_def LastIndex_def IndexByte_def)
  have r': "useProxy go_sample \<lparr>HTTPProxy = ''proxy'', HTTPSProxy = [], NoProxy = '':1''\<rparr>
      ''a]b:80'' = Inr False"
    by (simp add: useProxy_def s')
  show ?thesis using s ip r s' r' by simp
qed

subsection \<open>The loopback rule reads the host as written\<close>

text \<open>
  C9. The comparison with \<open>localhost\<close> (line 121) is made on the host as
  \<open>net.SplitHostPort\<close> returns it; the address is lower-cased only at line 135, for
  the entries of \<open>NoProxy\<close>. So for every address that splits and whose host is not a
  loopback IP address, \<open>useProxy\<close> with an empty \<open>NoProxy\<close> is true exactly when the
  host, as written, is not \<open>localhost\<close>: \<open>LOCALHOST:80\<close> and \<open>Localhost:80\<close> are
  proxied, \<open>localhost:80\<close> is not. The entries are compared with the lower-cased
  address: with the entry \<open>localhost\<close>, an address whose lower-cased, trimmed,
  port-stripped form is \<open>localhost\<close> is not proxied, however it is spelled.
\<close>

theorem C9_localhost_case_sensitive:
  assumes "SplitHostPort addr = Inr (host, port)"
    and "\<not> (case ParseIP sl host of None \<Rightarrow> False | Some ip \<Rightarrow> IsLoopback ip)"
  shows "(NoProxy cfg = [] \<longrightarrow> useProxy sl cfg addr = Inr (host \<noteq> ''localhost'')) \<and>
         (NoProxy cfg = ''localhost'' \<longrightarrow>
            stripPort (ToLower sl (TrimSpace sl addr)) = Inr ''localhost'' \<longrightarrow>
            useProxy sl cfg addr = Inr False)"
proof -
  have ne: "addr \<noteq> []"
    using assms(1) by (rule SplitHostPort_nonempty)
  obtain a where a: "stripPort (ToLower sl (TrimSpace sl addr)) = Inr a"
    using stripPort_total by blast
  have e0: "useProxy_entry sl a [] = Inr False"
    by (simp add: useProxy_entry_def ToLower_def TrimSpace_def)
  have empty: "useProxy sl cfg addr = Inr (host \<noteq> ''localhost'')" if "NoProxy cfg = []"
    using that assms ne a e0 by (simp add: useProxy_def)
  have e1: "useProxy_entry sl ''localhost'' ''localhost'' = Inr True"
    by code_simp
  have entry: "useProxy sl cfg addr = Inr False"
    if "NoProxy cfg = ''localhost''"
      "stripPort (ToLower sl (TrimSpace sl addr)) = Inr ''localhost''"
    using that assms ne e1 by (simp add: useProxy_def)
  show ?thesis using empty entry by blast
qed

theorem C9_localhost_case_sensitive_witness:
  "ParseIP go_sample ''LOCALHOST'' = None \<and>
   stripPort (ToLower go_sample (TrimSpace go_sample ''LOCALHOST:80'')) = Inr ''localhost'' \<and>
   useProxy go_sample \<lparr>HTTPProxy = ''proxy'', HTTPSProxy = [], NoProxy = []\<rparr>
     ''LOCALHOST:80'' = Inr True \<and>
   useProxy go_sample \<lparr>HTTPProxy = ''proxy'', HTTPSProxy = [], NoProxy = []\<rparr>
     ''Localhost:80'' = Inr True \<and>
   useProxy go_sample \<lparr>HTTPProxy = ''proxy'', HTTPSProxy = [], NoProxy = []\<rparr>
     ''localhost:80'' = Inr False \<and>
   useProxy go_sample \<lparr>HTTPProxy = ''proxy'', HTTPSProxy = [], NoProxy = ''localhost''\<rparr>
     ''LOCALHOST:80'' = Inr False"
proof -
  let ?c0 = "\<lparr>HTTPProxy = ''proxy'', HTTPSProxy = [], NoProxy = []\<rparr>"
  let ?c1 = "\<lparr>HTTPProxy = ''proxy'', HTTPSProxy = [], NoProxy = ''localhost''\<rparr>"
  have ip: "ParseIP go_sample ''LOCALHOST'' = None"
    by (simp add: go_sample_def)
  have n1: "\<not> (case ParseIP go_sample ''LOCALHOST'' of None \<Rightarrow> False
                 | Some ip \<Rightarrow> IsLoopback ip)"
    by (simp add: go_sample_def)
  have n2: "\<not> (case ParseIP go_sample ''Localhost'' of None \<Rightarrow> False
                 | Some ip \<Rightarrow> IsLoopback ip)"
    by (simp add: go_sample_def)
  have n3: "\<not> (case ParseIP go_sample ''localhost'' of None \<Rightarrow> False
                 | Some ip \<Rightarrow> IsLoopback ip)"
    by (simp add: go_sample_def)
  have s1: "SplitHostPort ''LOCALHOST:80'' = Inr (''LOCALHOST'', ''80'')"
    by (simp add: SplitHostPort_def LastIndex_def IndexByte_def)
  have s2: "SplitHostPort ''Localhost:80'' = Inr (''Localhost'', ''80'')"
    by (simp add: SplitHostPort_def LastIndex_def IndexByte_def)
  have s3: "SplitHostPort ''localhost:80'' = Inr (''localhost'', ''80'')"
    by (simp add: SplitHostPort_def LastIndex_def IndexByte_def)
  have a: "stripPort (ToLower go_sample (TrimSpace go_sample ''LOCALHOST:80'')) =
      Inr ''localhost''"
    by code_simp
  have r1: "useProxy go_sample ?c0 ''LOCALHOST:80'' = Inr True"
    using C9_localhost_case_sensitive [OF s1 n1, of ?c0] by simp
  have r2: "useProxy go_sample ?c0 ''Localhost:80'' = Inr True"
    using C9_localhost_case_sensitive [OF s2 n2, of ?c0] by simp
  have r3: "useProxy go_sample ?c0 ''localhost:80'' = Inr False"
    using C9_localhost_case_sensitive [OF s3 n3, of ?c0] by simp
  have r4: "useProxy go_sample ?c1 ''LOCALHOST:80'' = Inr False"
    using C9_localhost_case_sensitive [OF s1 n1, of ?c1] a by simp
  show ?thesis using ip a r1 r2 r3 r4 by simp
qed

subsection \<open>The asterisk\<close>

lemma JoinHostPort_nonempty: "JoinHostPort host port \<noteq> []"
  by (simp add: JoinHostPort_def)

lemma canonicalAddr_nonempty: "canonicalAddr sl url \<noteq> []"
  by (simp add: canonicalAddr_def Let_def JoinHostPort_nonempty)

text \<open>
  C5. With \<open>NoProxy = "*"\<close>, \<open>useProxy\<close> is false for every non-empty address (whether
  it splits into host and port or not, and whether the loopback rule applies or not),
  and \<open>ProxyForURL\<close> returns no proxy and no error for every request.
\<close>

theorem C5_asterisk:
  assumes "NoProxy cfg = ''*''"
  shows "(addr \<noteq> [] \<longrightarrow> useProxy sl cfg addr = Inr False) \<and>
         ProxyForURL sl cfg reqURL = Inr (None, None)"
proof -
  have no: "useProxy sl cfg addr = Inr False" if "addr \<noteq> []" for addr
    using that assms by (auto simp: useProxy_def split: sum.splits prod.splits)
  have "ProxyForURL sl cfg reqURL = Inr (None, None)"
    using no [OF canonicalAddr_nonempty] by (simp add: ProxyForURL_def Let_def)
  then show ?thesis using no by blast
qed

theorem C5_asterisk_witness:
  "useProxy go_sample \<lparr>HTTPProxy = ''proxy'', HTTPSProxy = [], NoProxy = ''*''\<rparr>
     ''example.com:80'' = Inr False \<and>
   ProxyForURL go_sample \<lparr>HTTPProxy = ''proxy'', HTTPSProxy = [], NoProxy = ''*''\<rparr>
     example_request = Inr (None, None)"
  using C5_asterisk [of "\<lparr>HTTPProxy = ''proxy'', HTTPSProxy = [], NoProxy = ''*''\<rparr>"
      "''example.com:80''" go_sample example_request]
  by simp

subsection \<open>Selecting the proxy string\<close>

text \<open>
  C6. The string \<open>ProxyForURL\<close> selects is the one the specification describes. When it
  is empty the result is no proxy and no error, so an empty configuration gives no proxy
  and no error for every request; when it is not empty, it is the string that is parsed
  if the request is to be proxied.
\<close>

theorem C6_candidate:
  "candidate cfg reqURL = spec_candidate cfg reqURL \<and>
   (spec_candidate cfg reqURL = [] \<longrightarrow> ProxyForURL sl cfg reqURL = Inr (None, None)) \<and>
   (HTTPProxy cfg = [] \<and> HTTPSProxy cfg = [] \<longrightarrow>
      ProxyForURL sl cfg reqURL = Inr (None, None)) \<and>
   (spec_candidate cfg reqURL \<noteq> [] \<longrightarrow>
      useProxy sl cfg (canonicalAddr sl reqURL) = Inr True \<longrightarrow>
      ProxyForURL sl cfg reqURL = Inr (parseProxy sl (spec_candidate cfg reqURL)))"
proof -
  have c: "candidate cfg reqURL = spec_candidate cfg reqURL"
    by (simp add: candidate_def spec_candidate_def Let_def)
  have e: "HTTPProxy cfg = [] \<and> HTTPSProxy cfg = [] \<longrightarrow> spec_candidate cfg reqURL = []"
    by (simp add: spec_candidate_def)
  show ?thesis
    using e by (auto simp: ProxyForURL_def Let_def c)
qed

theorem C6_candidate_witness:
  "candidate \<lparr>HTTPProxy = ''http.proxy.tld'', HTTPSProxy = ''secure.proxy.tld'', NoProxy = []\<rparr>
     (example_request\<lparr>Scheme := ''https''\<rparr>) = ''secure.proxy.tld'' \<and>
   candidate \<lparr>HTTPProxy = ''http.proxy.tld'', HTTPSProxy = ''secure.proxy.tld'', NoProxy = []\<rparr>
     example_request = ''http.proxy.tld'' \<and>
   candidate \<lparr>HTTPProxy = ''http.proxy.tld'', HTTPSProxy = [], NoProxy = []\<rparr>
     (example_request\<lparr>Scheme := ''https''\<rparr>) = ''http.proxy.tld'' \<and>
   ProxyForURL go_sample \<lparr>HTTPProxy = [], HTTPSProxy = [], NoProxy = []\<rparr> example_request =
     Inr (None, None) \<and>
   ProxyForURL go_sample \<lparr>HTTPProxy = ''127.0.0.1:8080'', HTTPSProxy = [], NoProxy = []\<rparr>
     example_request = Inr (parseProxy go_sample ''127.0.0.1:8080'')"
proof -
  have u: "useProxy go_sample \<lparr>HTTPProxy = ''127.0.0.1:8080'', HTTPSProxy = [], NoProxy = []\<rparr>
      (canonicalAddr go_sample example_request) = Inr True"
    by code_simp
  show ?thesis
    using u
      C6_candidate [of "\<lparr>HTTPProxy = ''http.proxy.tld'', HTTPSProxy = ''secure.proxy.tld'',
        NoProxy = []\<rparr>" "example_request\<lparr>Scheme := ''https''\<rparr>" go_sample]
      C6_candidate [of "\<lparr>HTTPProxy = ''http.proxy.tld'', HTTPSProxy = ''secure.proxy.tld'',
        NoProxy = []\<rparr>" example_request go_sample]
      C6_candidate [of "\<lparr>HTTPProxy = ''http.proxy.tld'', HTTPSProxy = [], NoProxy = []\<rparr>"
        "example_request\<lparr>Scheme := ''https''\<rparr>" go_sample]
      C6_candidate [of "\<lparr>HTTPProxy = [], HTTPSProxy = [], NoProxy = []\<rparr>"
        example_request go_sample]
      C6_candidate [of "\<lparr>HTTPProxy = ''127.0.0.1:8080'', HTTPSProxy = [], NoProxy = []\<rparr>"
        example_request go_sample]
    by (simp add: spec_candidate_def example_request_def)
qed

subsection \<open>Parsing and repairing the proxy string\<close>

text \<open>
  C7. If the selected string \<open>proxy\<close> does not parse, or parses with a scheme other than
  \<open>http\<close>, \<open>https\<close> and \<open>socks5\<close>, then \<open>"http://" + proxy\<close> is parsed: when that
  succeeds, its URL is the result of lines 92-107, with no error; when both parses fail,
  the result is no proxy and the error made of \<open>proxy\<close> and the first parse error. Lines
  92-107 give the result of \<open>ProxyForURL\<close> whenever they are reached, that is for a
  non-empty \<open>proxy\<close> and a request that is to be proxied.
\<close>

theorem C7_repair:
  assumes "case Parse sl proxy of Inl err \<Rightarrow> True
           | Inr u \<Rightarrow> Scheme u \<noteq> ''http'' \<and> Scheme u \<noteq> ''https'' \<and> Scheme u \<noteq> ''socks5''"
  shows "(\<forall>u'. Parse sl (''http://'' @ proxy) = Inr u' \<longrightarrow>
            parseProxy sl proxy = (Some u', None)) \<and>
         (\<forall>err err'. Parse sl proxy = Inl err \<longrightarrow> Parse sl (''http://'' @ proxy) = Inl err' \<longrightarrow>
            parseProxy sl proxy = (None, Some (InvalidProxyAddress proxy err))) \<and>
         (candidate cfg reqURL = proxy \<longrightarrow> proxy \<noteq> [] \<longrightarrow>
            useProxy sl cfg (canonicalAddr sl reqURL) = Inr True \<longrightarrow>
            ProxyForURL sl cfg reqURL = Inr (parseProxy sl proxy))"
proof -
  have p: "candidate cfg reqURL = proxy \<longrightarrow> proxy \<noteq> [] \<longrightarrow>
      useProxy sl cfg (canonicalAddr sl reqURL) = Inr True \<longrightarrow>
      ProxyForURL sl cfg reqURL = Inr (parseProxy sl proxy)"
    by (simp add: ProxyForURL_def Let_def)
  have r: "\<forall>u'. Parse sl (''http://'' @ proxy) = Inr u' \<longrightarrow>
      parseProxy sl proxy = (Some u', None)"
    using assms by (simp add: parseProxy_def Let_def)
  have e: "\<forall>err err'. Parse sl proxy = Inl err \<longrightarrow>
      Parse sl (''http://'' @ proxy) = Inl err' \<longrightarrow>
      parseProxy sl proxy = (None, Some (InvalidProxyAddress proxy err))"
    by (simp add: parseProxy_def Let_def)
  show ?thesis using p r e by blast
qed

theorem C7_repair_witness:
  "Parse go_sample ''127.0.0.1:8080'' = Inl ''first path segment in URL cannot contain colon'' \<and>
   ProxyForURL go_sample \<lparr>HTTPProxy = ''127.0.0.1:8080'', HTTPSProxy = [], NoProxy = []\<rparr>
     example_request =
     Inr (Some \<lparr>Scheme = ''http'', Opaque = [], Host = ''127.0.0.1:8080'', Path = [],
                 RawQuery = [], Fragment = []\<rparr>, None) \<and>
   ProxyForURL go_sample \<lparr>HTTPProxy = ''%zz'', HTTPSProxy = [], NoProxy = []\<rparr>
     example_request =
     Inr (None, Some (InvalidProxyAddress ''%zz'' ''invalid URL escape''))"
proof -
  let ?c1 = "\<lparr>HTTPProxy = ''127.0.0.1:8080'', HTTPSProxy = [], NoProxy = []\<rparr>"
  let ?c2 = "\<lparr>HTTPProxy = ''%zz'', HTTPSProxy = [], NoProxy = []\<rparr>"
  have u1: "useProxy go_sample ?c1 (canonicalAddr go_sample example_request) = Inr True"
    by code_simp
  have u2: "useProxy go_sample ?c2 (canonicalAddr go_sample example_request) = Inr True"
    by code_simp
  have k1: "candidate ?c1 example_request = ''127.0.0.1:8080''"
    by (simp add: candidate_def example_request_def)
  have k2: "candidate ?c2 example_request = ''%zz''"
    by (simp add: candidate_def example_request_def)
  have p1: "Parse go_sample ''127.0.0.1:8080'' =
      Inl ''first path segment in URL cannot contain colon''"
    by (simp add: go_sample_def)
  have q1: "Parse go_sample (''http://'' @ ''127.0.0.1:8080'') =
      Inr \<lparr>Scheme = ''http'', Opaque = [], Host = ''127.0.0.1:8080'', Path = [],
           RawQuery = [], Fragment = []\<rparr>"
    by (simp add: go_sample_def)
  have p2: "Parse go_sample ''%zz'' = Inl ''invalid URL escape''"
    by (simp add: go_sample_def)
  have q2: "Parse go_sample (''http://'' @ ''%zz'') = Inl ''invalid URL escape''"
    by (simp add: go_sample_def)
  have b1: "case Parse go_sample ''127.0.0.1:8080'' of Inl err \<Rightarrow> True
      | Inr u \<Rightarrow> Scheme u \<noteq> ''http'' \<and> Scheme u \<noteq> ''https'' \<and> Scheme u \<noteq> ''socks5''"
    by (simp add: p1)
  have b2: "case Parse go_sample ''%zz'' of Inl err \<Rightarrow> True
      | Inr u \<Rightarrow> Scheme u \<noteq> ''http'' \<and> Scheme u \<noteq> ''https'' \<and> Scheme u \<noteq> ''socks5''"
    by (simp add: p2)
  have r1: "ProxyForURL go_sample ?c1 example_request =
      Inr (Some \<lparr>Scheme = ''http'', Opaque = [], Host = ''127.0.0.1:8080'', Path = [],
                  RawQuery = [], Fragment = []\<rparr>, None)"
    using C7_repair [OF b1, of ?c1 example_request] k1 u1 q1 by simp
  have r2: "ProxyForURL go_sample ?c2 example_request =
      Inr (None, Some (InvalidProxyAddress ''%zz'' ''invalid URL escape''))"
    using C7_repair [OF b2, of ?c2 example_request] k2 u2 p2 q2 by simp
  show ?thesis using p1 r1 r2 by simp
qed

text \<open>
  When the selected string parses with a scheme other than \<open>http\<close>, \<open>https\<close> and
  \<open>socks5\<close>, and \<open>"http://" + proxy\<close> does not parse, the \<open>proxyURL\<close> and \<open>err\<close> of line
  100 are gone with the inner \<open>if\<close>: line 104 tests the first \<open>err\<close>, which is \<open>nil\<close>,
  and line 107 returns the first \<open>proxyURL\<close>.
\<close>

lemma ProxyForURL_unrecognized_scheme:
  assumes "candidate cfg reqURL = proxy" and "proxy \<noteq> []"
    and "Parse sl proxy = Inr u"
    and "Scheme u \<noteq> ''http'' \<and> Scheme u \<noteq> ''https'' \<and> Scheme u \<noteq> ''socks5''"
    and "Parse sl (''http://'' @ proxy) = Inl err'"
  shows "ProxyForURL sl cfg reqURL =
           Inr (if useProxy sl cfg (canonicalAddr sl reqURL) = Inr True then (Some u, None)
                else (None, None))"
proof -
  obtain b where b: "useProxy sl cfg (canonicalAddr sl reqURL) = Inr b"
    using useProxy_total by blast
  have "parseProxy sl proxy = (Some u, None)"
    using assms(3-5) by (simp add: parseProxy_def)
  then show ?thesis
    using assms(1,2) b by (cases b) (simp_all add: ProxyForURL_def)
qed

text \<open>
  C1 (the code at a failing input). The configuration has \<open>HTTPProxy = "foo:%zz"\<close> and
  nothing else, the request is \<open>http://example.com\<close>. \<open>url.Parse\<close> reads \<open>foo:%zz\<close> as the
  scheme \<open>foo\<close> with the opaque part \<open>%zz\<close>, and rejects \<open>http://foo:%zz\<close>. The comment at
  lines 97-99 says the code then complains about the original string, and the
  documentation of \<open>FromEnvironment\<close> says an error is returned for a value that is
  neither a URL nor \<open>host[:port]\<close>; the specification says the result is no proxy.
  \<open>ProxyForURL\<close> returns the URL with the scheme \<open>foo\<close>, and no error.
\<close>

theorem C1_code_at_failing_input:
  "candidate \<lparr>HTTPProxy = ''foo:%zz'', HTTPSProxy = [], NoProxy = []\<rparr> example_request =
     ''foo:%zz'' \<and>
   Parse go_sample ''foo:%zz'' =
     Inr \<lparr>Scheme = ''foo'', Opaque = ''%zz'', Host = [], Path = [], RawQuery = [],
          Fragment = []\<rparr> \<and>
   Parse go_sample ''http://foo:%zz'' = Inl ''invalid port after host'' \<and>
   useProxy go_sample \<lparr>HTTPProxy = ''foo:%zz'', HTTPSProxy = [], NoProxy = []\<rparr>
     (canonicalAddr go_sample example_request) = Inr True \<and>
   ProxyForURL go_sample \<lparr>HTTPProxy = ''foo:%zz'', HTTPSProxy = [], NoProxy = []\<rparr>
     example_request \<noteq> Inr (None, None) \<and>
   ProxyForURL go_sample \<lparr>HTTPProxy = ''foo:%zz'', HTTPSProxy = [], NoProxy = []\<rparr>
     example_request =
     Inr (Some \<lparr>Scheme = ''foo'', Opaque = ''%zz'', Host = [], Path = [], RawQuery = [],
                 Fragment = []\<rparr>, None)"
proof -
  let ?c = "\<lparr>HTTPProxy = ''foo:%zz'', HTTPSProxy = [], NoProxy = []\<rparr>"
  have u: "useProxy go_sample ?c (canonicalAddr go_sample example_request) = Inr True"
    by code_simp
  have k: "candidate ?c example_request = ''foo:%zz''"
    by (simp add: candidate_def example_request_def)
  have p: "Parse go_sample ''foo:%zz'' =
      Inr \<lparr>Scheme = ''foo'', Opaque = ''%zz'', Host = [], Path = [], RawQuery = [],
           Fragment = []\<rparr>"
    by (simp add: go_sample_def)
  have q: "Parse go_sample (''http://'' @ ''foo:%zz'') = Inl ''invalid port after host''"
    by (simp add: go_sample_def)
  have r: "ProxyForURL go_sample ?c example_request =
     Inr (Some \<lparr>Scheme = ''foo'', Opaque = ''%zz'', Host = [], Path = [], RawQuery = [],
                 Fragment = []\<rparr>, None)"
    using ProxyForURL_unrecognized_scheme [OF k _ p _ q] u by simp
  show ?thesis using k p q u r by simp
qed

subsection \<open>IDNA conversion and the entries of \<open>NoProxy\<close>\<close>

lemma isASCII_iff: "isASCII s \<longleftrightarrow> (\<forall>c\<in>set s. (of_char c :: nat) < RuneSelf)"
  by (induction s) auto

lemma isASCII_take: "isASCII s \<Longrightarrow> isASCII (take n s)"
  by (auto simp: isASCII_iff dest: in_set_takeD)

lemma isASCII_drop: "isASCII s \<Longrightarrow> isASCII (drop n s)"
  by (auto simp: isASCII_iff dest: in_set_dropD)

lemma toLowerByte_ascii: "(of_char c :: nat) < RuneSelf \<Longrightarrow> (of_char (toLowerByte c) :: nat) < RuneSelf"
  by (simp add: toLowerByte_def RuneSelf_def)

lemma isASCII_ToLower: "isASCII s \<Longrightarrow> isASCII (ToLower sl s)"
  by (auto simp: ToLower_def isASCII_iff toLowerByte_ascii)

lemma isASCII_TrimSpace: "isASCII s \<Longrightarrow> isASCII (TrimSpace sl s)"
  by (auto simp: TrimSpace_def isASCII_iff dest!: set_dropWhileD)

lemma isASCII_stripPort: "stripPort s = Inr a \<Longrightarrow> isASCII s \<Longrightarrow> isASCII a"
  by (auto simp: stripPort_eq isASCII_take split: if_splits)

lemma useProxy_entry_non_ascii:
  assumes "stripPort (ToLower sl (TrimSpace sl p0)) = Inr p"
    and "isASCII a" and "\<not> isASCII p"
  shows "useProxy_entry sl a p0 = Inr False"
proof -
  have 1: "a \<noteq> p" using assms(2,3) by blast
  have 2: "\<not> HasSuffix a p"
    using assms(2,3) isASCII_drop [of a "length a - length p"] by (auto simp: HasSuffix_def)
  have 3: "a \<noteq> drop 1 p" if "hd p = CHR ''.''" "p \<noteq> []"
  proof
    assume "a = drop 1 p"
    then have "p = CHR ''.'' # a" using that by (cases p) simp_all
    then have "isASCII p" using assms(2) by (simp add: RuneSelf_def)
    then show False using assms(3) by simp
  qed
  show ?thesis
    using 1 2 3 by (auto simp: useProxy_entry_eq [OF assms(1)])
qed

lemma useProxy_ToASCII_irrelevant:
  "useProxy (sl\<lparr>ToASCII := f\<rparr>) cfg addr = useProxy sl cfg addr"
proof -
  have l: "ToLower (sl\<lparr>ToASCII := f\<rparr>) = ToLower sl"
    by (rule ext) (simp add: ToLower_def)
  have t: "TrimSpace (sl\<lparr>ToASCII := f\<rparr>) = TrimSpace sl"
    by (rule ext) (simp add: TrimSpace_def)
  have e: "useProxy_entry (sl\<lparr>ToASCII := f\<rparr>) a p = useProxy_entry sl a p" for a p
    by (simp add: useProxy_entry_def l t)
  have lp: "useProxy_loop (sl\<lparr>ToASCII := f\<rparr>) a ps = useProxy_loop sl a ps" for a ps
    by (induction ps) (auto simp: e split: sum.splits bool.splits)
  have ip: "ParseIP (sl\<lparr>ToASCII := f\<rparr>) = ParseIP sl"
    by simp
  show ?thesis
    unfolding useProxy_def l t lp ip by (rule refl)
qed

text \<open>
  C10 (as the code has it). For a request whose host name \<open>h\<close> has a non-ASCII byte and
  is converted by IDNA to \<open>v\<close>, the canonical address is made of \<open>v\<close>; \<open>useProxy\<close> itself
  never calls the IDNA conversion. An entry of \<open>NoProxy\<close> written as \<open>h\<close> is lower-cased,
  trimmed and port-stripped only. If that form \<open>p\<close> still has a non-ASCII byte while
  the canonical address is ASCII, the entry does not match, and if it is the only entry
  \<open>useProxy\<close> is true unless the address fails to split or the loopback rule applies.
\<close>

theorem C10_idna_request_only:
  assumes "\<not> isASCII (Hostname sl reqURL)"
    and "ToASCII sl (Hostname sl reqURL) = Inr v"
    and "isASCII (canonicalAddr sl reqURL)"
    and "stripPort (ToLower sl (TrimSpace sl (canonicalAddr sl reqURL))) = Inr a"
    and "stripPort (ToLower sl (TrimSpace sl (Hostname sl reqURL))) = Inr p"
    and "\<not> isASCII p"
  shows "canonicalAddr sl reqURL =
           JoinHostPort v (if Port sl reqURL = [] then map_index portMap (Scheme reqURL)
                           else Port sl reqURL) \<and>
         useProxy (sl\<lparr>ToASCII := f\<rparr>) cfg addr = useProxy sl cfg addr \<and>
         useProxy_entry sl a (Hostname sl reqURL) = Inr False \<and>
         (Split (NoProxy cfg) (CHR '','') = [Hostname sl reqURL] \<longrightarrow>
            SplitHostPort (canonicalAddr sl reqURL) = Inr (host, port) \<longrightarrow>
            host \<noteq> ''localhost'' \<longrightarrow>
            \<not> (case ParseIP sl host of None \<Rightarrow> False | Some ip \<Rightarrow> IsLoopback ip) \<longrightarrow>
            useProxy sl cfg (canonicalAddr sl reqURL) = Inr True)"
proof -
  have c: "canonicalAddr sl reqURL =
      JoinHostPort v (if Port sl reqURL = [] then map_index portMap (Scheme reqURL)
                      else Port sl reqURL)"
    using assms(1,2) by (simp add: canonicalAddr_def idnaASCII_def Let_def)
  have i: "useProxy (sl\<lparr>ToASCII := f\<rparr>) cfg addr = useProxy sl cfg addr"
    by (rule useProxy_ToASCII_irrelevant)
  have a: "isASCII a"
    using assms(3,4) isASCII_stripPort isASCII_ToLower isASCII_TrimSpace by blast
  have e: "useProxy_entry sl a (Hostname sl reqURL) = Inr False"
    using assms(5) a assms(6) by (rule useProxy_entry_non_ascii)
  have u: "Split (NoProxy cfg) (CHR '','') = [Hostname sl reqURL] \<longrightarrow>
      SplitHostPort (canonicalAddr sl reqURL) = Inr (host, port) \<longrightarrow>
      host \<noteq> ''localhost'' \<longrightarrow>
      \<not> (case ParseIP sl host of None \<Rightarrow> False | Some ip \<Rightarrow> IsLoopback ip) \<longrightarrow>
      useProxy sl cfg (canonicalAddr sl reqURL) = Inr True"
  proof (intro impI)
    assume h: "Split (NoProxy cfg) (CHR '','') = [Hostname sl reqURL]"
      "SplitHostPort (canonicalAddr sl reqURL) = Inr (host, port)"
      "host \<noteq> ''localhost''"
      "\<not> (case ParseIP sl host of None \<Rightarrow> False | Some ip \<Rightarrow> IsLoopback ip)"
    have "NoProxy cfg \<noteq> ''*''"
    proof
      assume "NoProxy cfg = ''*''"
      then have "Hostname sl reqURL = ''*''" using h(1) by simp
      then show False using assms(1) by (simp add: RuneSelf_def)
    qed
    then have "useProxy sl cfg (canonicalAddr sl reqURL) =
        useProxy_loop sl a (Split (NoProxy cfg) (CHR '',''))"
      using h(2-4) assms(4) useProxy_past_loopback by blast
    then show "useProxy sl cfg (canonicalAddr sl reqURL) = Inr True"
      using e by (simp add: h(1))
  qed
  show ?thesis using c i e u by blast
qed

theorem C10_idna_request_only_witness:
  "\<not> isASCII (Hostname go_sample buecher_request) \<and>
   ToASCII go_sample (Hostname go_sample buecher_request) = Inr ''xn--bcher-kva.de'' \<and>
   canonicalAddr go_sample buecher_request = ''xn--bcher-kva.de:80'' \<and>
   stripPort (ToLower go_sample (TrimSpace go_sample buecher_de)) = Inr buecher_de \<and>
   useProxy_entry go_sample ''xn--bcher-kva.de'' buecher_de = Inr False \<and>
   useProxy go_sample \<lparr>HTTPProxy = ''proxy'', HTTPSProxy = [], NoProxy = buecher_de\<rparr>
     (canonicalAddr go_sample buecher_request) = Inr True"
proof -
  let ?cfg = "\<lparr>HTTPProxy = ''proxy'', HTTPSProxy = [], NoProxy = buecher_de\<rparr>"
  have h: "Hostname go_sample buecher_request = buecher_de"
    by (simp add: go_sample_def buecher_request_def)
  have n: "\<not> isASCII (Hostname go_sample buecher_request)"
    unfolding h by code_simp
  have v: "ToASCII go_sample (Hostname go_sample buecher_request) = Inr ''xn--bcher-kva.de''"
    unfolding h by code_simp
  have c: "canonicalAddr go_sample buecher_request = ''xn--bcher-kva.de:80''"
    by code_simp
  have ca: "isASCII (canonicalAddr go_sample buecher_request)"
    unfolding c by code_simp
  have a: "stripPort (ToLower go_sample (TrimSpace go_sample
      (canonicalAddr go_sample buecher_request))) = Inr ''xn--bcher-kva.de''"
    unfolding c by code_simp
  have p: "stripPort (ToLower go_sample (TrimSpace go_sample
      (Hostname go_sample buecher_request))) = Inr buecher_de"
    unfolding h by code_simp
  have np: "\<not> isASCII buecher_de"
    by code_simp
  have sp: "Split (NoProxy ?cfg) (CHR '','') = [Hostname go_sample buecher_request]"
    unfolding h by code_simp
  have s: "SplitHostPort (canonicalAddr go_sample buecher_request) =
      Inr (''xn--bcher-kva.de'', ''80'')"
    unfolding c by code_simp
  have ip: "\<not> (case ParseIP go_sample ''xn--bcher-kva.de'' of None \<Rightarrow> False
                 | Some ip \<Rightarrow> IsLoopback ip)"
    by (simp add: go_sample_def)
  note t = C10_idna_request_only [OF n v ca a p np, of _ ?cfg _ "''xn--bcher-kva.de''" "''80''"]
  have e: "useProxy_entry go_sample ''xn--bcher-kva.de'' (Hostname go_sample buecher_request) =
      Inr False"
    using t by blast
  have r: "useProxy go_sample ?cfg (canonicalAddr go_sample buecher_request) = Inr True"
    using t sp s ip by blast
  show ?thesis
    using n v c p e r unfolding h by blast
qed

theorem C10_kelvin_counterexample:
  "\<not> isASCII (Hostname go_sample kelvin_request) \<and>
   ToASCII go_sample (Hostname go_sample kelvin_request) = Inr ''k.com'' \<and>
   canonicalAddr go_sample kelvin_request = ''k.com:80'' \<and>
   NoProxy \<lparr>HTTPProxy = ''proxy'', HTTPSProxy = [], NoProxy = kelvin_com\<rparr> =
     Hostname go_sample kelvin_request \<and>
   ToLower go_sample (TrimSpace go_sample kelvin_com) = ''k.com'' \<and>
   useProxy go_sample \<lparr>HTTPProxy = ''proxy'', HTTPSProxy = [], NoProxy = []\<rparr>
     (canonicalAddr go_sample kelvin_request) = Inr True \<and>
   useProxy go_sample \<lparr>HTTPProxy = ''proxy'', HTTPSProxy = [], NoProxy = kelvin_com\<rparr>
     (canonicalAddr go_sample kelvin_request) = Inr False"
proof -
  have h: "Hostname go_sample kelvin_request = kelvin_com"
    by (simp add: go_sample_def kelvin_request_def)
  have n: "\<not> isASCII (Hostname go_sample kelvin_request)"
    unfolding h by code_simp
  have v: "ToASCII go_sample (Hostname go_sample kelvin_request) = Inr ''k.com''"
    unfolding h by code_simp
  have c: "canonicalAddr go_sample kelvin_request = ''k.com:80''"
    by code_simp
  have l: "ToLower go_sample (TrimSpace go_sample kelvin_com) = ''k.com''"
    by code_simp
  have u0: "useProxy go_sample \<lparr>HTTPProxy = ''proxy'', HTTPSProxy = [], NoProxy = []\<rparr>
     (canonicalAddr go_sample kelvin_request) = Inr True"
    unfolding c by code_simp
  have u1: "useProxy go_sample \<lparr>HTTPProxy = ''proxy'', HTTPSProxy = [], NoProxy = kelvin_com\<rparr>
     (canonicalAddr go_sample kelvin_request) = Inr False"
    unfolding c by code_simp
  show ?thesis using n v c l u0 u1 by (simp add: h)
qed

end
